theory Spec2Isabelle
  imports Main
begin

section \<open>JavaScript strings, \<open>undefined\<close> and number formatting\<close>

text \<open>
  The resolver of Prometheus template-variable queries, \<open>PrometheusMetricFindQuery\<close>:
  \<open>process\<close> classifies the query text with regular expressions and hands it to one of
  four handlers, each of which sends one metadata request and decodes the response.

  A JavaScript string is a \<open>string\<close> (code units below 256). A value that is either a
  string or \<open>undefined\<close> (an unmatched capture group, an omitted argument) is a
  \<open>string option\<close>, \<open>None\<close> being \<open>undefined\<close>: \<open>ToString\<close> is what a template literal
  makes of it, \<open>truthy\<close> what a condition does.

  Numbers are integers. \<open>numberToString\<close> is \<open>Number.prototype.toString\<close> on them: the
  decimal digits, with a minus sign below zero.
\<close>

definition ToString :: "string option \<Rightarrow> string" where
  "ToString v = (case v of None \<Rightarrow> ''undefined'' | Some s \<Rightarrow> s)"

definition truthy :: "string option \<Rightarrow> bool" where
  "truthy v = (case v of None \<Rightarrow> False | Some s \<Rightarrow> s \<noteq> [])"

definition digitChar :: "nat \<Rightarrow> char" where
  "digitChar d = ''0123456789'' ! (d mod 10)"

fun natToString :: "nat \<Rightarrow> string" where
  "natToString n = (if n < 10 then [digitChar n] else natToString (n div 10) @ [digitChar (n mod 10)])"

declare natToString.simps [simp del]

definition numberToString :: "int \<Rightarrow> string" where
  "numberToString i = (if i < 0 then CHR ''-'' # natToString (nat (- i)) else natToString (nat i))"

text \<open>
  The integer that a string of decimal digits, with or without a minus sign, denotes.
\<close>

definition digitValue :: "char \<Rightarrow> nat" where
  "digitValue c = of_char c - 48"

definition decimalNat :: "string \<Rightarrow> nat" where
  "decimalNat s = foldl (\<lambda>a c. 10 * a + digitValue c) 0 s"

definition decimalInt :: "string \<Rightarrow> int" where
  "decimalInt s = (case s of [] \<Rightarrow> 0 | c # ds \<Rightarrow> if c = CHR ''-'' then - int (decimalNat ds) else int (decimalNat s))"

section \<open>Regular expressions: the backtracking matcher of the language\<close>

text \<open>
  The patterns of the source are written as syntax trees: \<open>Chr\<close> a literal character,
  \<open>Dot\<close> the \<open>.\<close>, \<open>Class\<close> a bracket of ranges, \<open>Space\<close> the \<open>\s\<close>, \<open>Bol\<close> and \<open>Eol\<close>
  the anchors \<open>^\<close> and \<open>$\<close> (no flags), \<open>Star\<close>, \<open>Plus\<close> and \<open>Opt\<close> the greedy \<open>*\<close>, \<open>+\<close>
  and \<open>?\<close>, and \<open>Group n\<close> the \<open>n\<close>-th capturing parenthesis.

  A matcher state is the position, the rest of the input and the captures. \<open>rm r st\<close> lists
  the states in which \<open>r\<close> can end when started in \<open>st\<close>, in the order in which backtracking
  tries them, so the first state of the list for the whole pattern is the match.
  A repetition tries one more round before it stops (greedy), clears the captures of its
  body at each round, and gives up a round that consumed nothing.
  \<open>match\<close> is \<open>String.prototype.match\<close> for a pattern without the global flag: the first
  start position with a match, as the array of the matched text and the groups
  (\<open>None\<close> for a group that took no part); \<open>test\<close> is \<open>RegExp.prototype.test\<close>.
\<close>

datatype regex =
    Chr char
  | Dot
  | Class "(char \<times> char) list"
  | Space
  | Bol
  | Eol
  | Empty
  | Seq regex regex
  | Alt regex regex
  | Star regex
  | Plus regex
  | Opt regex
  | Group nat regex

text \<open>
  The line terminators and the white space of the language, among the code units below 256.
\<close>

definition lineTerminator :: "char \<Rightarrow> bool" where
  "lineTerminator c = (c = CHR 0x0A \<or> c = CHR 0x0D)"

definition whiteSpace :: "char \<Rightarrow> bool" where
  "whiteSpace c = (c \<in> set [CHR 0x09, CHR 0x0A, CHR 0x0B, CHR 0x0C, CHR 0x0D, CHR 0x20, CHR 0xA0])"

definition inClass :: "(char \<times> char) list \<Rightarrow> char \<Rightarrow> bool" where
  "inClass rs c = list_ex (\<lambda>(lo, hi). (of_char lo :: nat) \<le> of_char c \<and> (of_char c :: nat) \<le> of_char hi) rs"

type_synonym captures = "(nat \<times> string) list"
type_synonym mstate = "nat \<times> string \<times> captures"

primrec groups :: "regex \<Rightarrow> nat list" where
  "groups (Chr c) = []"
| "groups Dot = []"
| "groups (Class rs) = []"
| "groups Space = []"
| "groups Bol = []"
| "groups Eol = []"
| "groups Empty = []"
| "groups (Seq a b) = groups a @ groups b"
| "groups (Alt a b) = groups a @ groups b"
| "groups (Star r) = groups r"
| "groups (Plus r) = groups r"
| "groups (Opt r) = groups r"
| "groups (Group n r) = n # groups r"

definition clearCaptures :: "nat list \<Rightarrow> mstate \<Rightarrow> mstate" where
  "clearCaptures gs st = (case st of (p, s, cs) \<Rightarrow> (p, s, filter (\<lambda>(n, v). n \<notin> set gs) cs))"

definition oneChar :: "(char \<Rightarrow> bool) \<Rightarrow> mstate \<Rightarrow> mstate list" where
  "oneChar ok st = (case st of (p, s, cs) \<Rightarrow>
     (case s of [] \<Rightarrow> [] | x # xs \<Rightarrow> if ok x then [(Suc p, xs, cs)] else []))"

definition advanced :: "mstate \<Rightarrow> mstate \<Rightarrow> bool" where
  "advanced st st' = (fst st < fst st')"

fun repeatMatcher :: "nat \<Rightarrow> (mstate \<Rightarrow> mstate list) \<Rightarrow> nat list \<Rightarrow> mstate \<Rightarrow> mstate list" where
  "repeatMatcher 0 m gs st = [st]"
| "repeatMatcher (Suc k) m gs st =
     concat (map (repeatMatcher k m gs) (filter (advanced st) (m (clearCaptures gs st)))) @ [st]"

primrec rm :: "regex \<Rightarrow> mstate \<Rightarrow> mstate list" where
  "rm (Chr c) = oneChar (\<lambda>x. x = c)"
| "rm Dot = oneChar (\<lambda>x. \<not> lineTerminator x)"
| "rm (Class rs) = oneChar (inClass rs)"
| "rm Space = oneChar whiteSpace"
| "rm Bol = (\<lambda>st. if fst st = 0 then [st] else [])"
| "rm Eol = (\<lambda>st. if fst (snd st) = [] then [st] else [])"
| "rm Empty = (\<lambda>st. [st])"
| "rm (Seq a b) = (\<lambda>st. concat (map (rm b) (rm a st)))"
| "rm (Alt a b) = (\<lambda>st. rm a st @ rm b st)"
| "rm (Star r) = (\<lambda>st. repeatMatcher (length (fst (snd st))) (rm r) (groups r) st)"
| "rm (Plus r) = (\<lambda>st. concat (map (\<lambda>st'. repeatMatcher (length (fst (snd st'))) (rm r) (groups r) st')
                                   (rm r (clearCaptures (groups r) st))))"
| "rm (Opt r) = (\<lambda>st. filter (advanced st) (rm r (clearCaptures (groups r) st)) @ [st])"
| "rm (Group n r) = (\<lambda>st. map (\<lambda>(p', s', cs'). (p', s', (n, take (p' - fst st) (fst (snd st))) # filter (\<lambda>(k, v). k \<noteq> n) cs'))
                                (rm r st))"

definition matchArray :: "regex \<Rightarrow> string \<Rightarrow> nat \<Rightarrow> mstate \<Rightarrow> string option list" where
  "matchArray r s p st = (case st of (p', s', cs) \<Rightarrow>
     Some (take (p' - p) s) # map (map_of cs) [1 ..< Suc (fold max (groups r) 0)])"

fun execFrom :: "regex \<Rightarrow> nat \<Rightarrow> string \<Rightarrow> string option list option" where
  "execFrom r p s =
     (case rm r (p, s, []) of
        st # _ \<Rightarrow> Some (matchArray r s p st)
      | [] \<Rightarrow> (case s of [] \<Rightarrow> None | _ # xs \<Rightarrow> execFrom r (Suc p) xs))"

declare execFrom.simps [simp del]

definition match :: "string \<Rightarrow> regex \<Rightarrow> string option list option" where
  "match s r = execFrom r 0 s"

definition test :: "regex \<Rightarrow> string \<Rightarrow> bool" where
  "test r s = (execFrom r 0 s \<noteq> None)"

definition at :: "string option list \<Rightarrow> nat \<Rightarrow> string option" where
  "at arr i = (if i < length arr then arr ! i else None)"

text \<open>
  \<open>arr[i]\<close> of a match array, a literal text, and a sequence of patterns.
\<close>

definition lit :: "string \<Rightarrow> regex" where
  "lit s = foldr (\<lambda>c r. Seq (Chr c) r) s Empty"

definition seqs :: "regex list \<Rightarrow> regex" where
  "seqs rs = foldr Seq rs Empty"

text \<open>
  \<^verbatim>\<open>/^label_values\((?:(.+),\s*)?([a-zA-Z_][a-zA-Z0-9_]*)\)\s*$/\<close>
\<close>

definition labelValuesRegex :: regex where
  "labelValuesRegex =
     seqs [Bol, lit ''label_values('',
           Opt (seqs [Group 1 (Plus Dot), Chr CHR '','', Star Space]),
           Group 2 (Seq (Class [(CHR ''a'', CHR ''z''), (CHR ''A'', CHR ''Z''), (CHR ''_'', CHR ''_'')])
                        (Star (Class [(CHR ''a'', CHR ''z''), (CHR ''A'', CHR ''Z''), (CHR ''0'', CHR ''9''), (CHR ''_'', CHR ''_'')]))),
           Chr CHR '')'', Star Space, Eol]"

section \<open>Data model of the resolver\<close>

text \<open>
  A label set (a series object of the backend, \<open>{ [key: string]: string }\<close>) is the list of
  its own properties in enumeration order, which for label names is the order of insertion;
  reading a property is \<open>map_of\<close>, deleting one removes the key. Properties inherited from
  \<open>Object.prototype\<close> are not modelled.

  The metric object of a sample of an instant vector is mutated by the decoder, so a sample
  holds the address of its metric object, and the objects live in the \<open>store\<close> of the
  \<open>world\<close>. The \<open>value\<close> of a sample is the pair of the timestamp (whole seconds here)
  and the text of the sample value.

  \<open>payload\<close> is \<open>result.data.data\<close> of a response, in the three shapes of the endpoints
  used: the label values, the series, and the instant-query result with its
  \<open>resultType\<close>. The source reads it untyped; a response of another shape than its
  endpoint's is outside this model, and a handler that meets one ends in \<open>Unmodelled\<close>.

  The errors: \<open>Error\<close> is the one the source throws, \<open>SyntaxError\<close> the one of the
  \<open>RegExp\<close> constructor, \<open>Rejected\<close> a failure of the transport.

  The datasource is a parameter. \<open>calls\<close> of the \<open>world\<close> records what was asked of it, in
  order. A promise is a function of the world to its outcome and the world after it.
\<close>

type_synonym labelset = "(string \<times> string) list"

type_synonym addr = nat

record MetricFindValue =
  itemText :: string
  expandable :: "bool option"

record TimeRange =
  rangeFrom :: int
  rangeTo :: int

record sample =
  metricRef :: addr
  valuePair :: "int \<times> string"

datatype queryResult =
    ValuePair int "string option"
  | Vector "sample list"
  | Opaque

datatype payload =
    Strings "string list"
  | SeriesList "labelset list"
  | QueryData string queryResult

datatype error =
    Error string
  | SyntaxError string
  | Rejected string
  | Unmodelled

type_synonym params = "(string \<times> string option) list"

datatype call =
    MetadataRequest string params
  | GetSeriesLabels string "string list"
  | GetTagKeys TimeRange

record datasource =
  metadataRequest :: "string \<Rightarrow> params \<Rightarrow> error + payload"
  hasLabelsMatchAPISupport :: bool
  getSeriesLabels :: "string \<Rightarrow> string list \<Rightarrow> error + string list"
  getTagKeys :: "TimeRange \<Rightarrow> error + MetricFindValue list"
  getOriginalMetricName :: "labelset \<Rightarrow> string"

record variableMigration =
  PrometheusLabelNamesRegex :: regex
  PrometheusLabelNamesRegexWithMatch :: regex
  PrometheusMetricNamesRegex :: regex
  PrometheusQueryResultRegex :: regex

record world =
  store :: "addr \<Rightarrow> labelset"
  calls :: "call list"

type_synonym 'a promise = "world \<Rightarrow> (error + 'a) \<times> world"

definition resolve :: "'a \<Rightarrow> 'a promise" where
  "resolve x w = (Inr x, w)"

definition thenP :: "'a promise \<Rightarrow> ('a \<Rightarrow> 'b promise) \<Rightarrow> 'b promise" where
  "thenP p f w = (case p w of (Inl e, w') \<Rightarrow> (Inl e, w') | (Inr x, w') \<Rightarrow> f x w')"

definition request :: "datasource \<Rightarrow> string \<Rightarrow> params \<Rightarrow> payload promise" where
  "request ds url ps w = (metadataRequest ds url ps, w\<lparr>calls := calls w @ [MetadataRequest url ps]\<rparr>)"

definition seriesLabels :: "datasource \<Rightarrow> string \<Rightarrow> string list \<Rightarrow> (string list) promise" where
  "seriesLabels ds selector ls w = (getSeriesLabels ds selector ls, w\<lparr>calls := calls w @ [GetSeriesLabels selector ls]\<rparr>)"

definition tagKeys :: "datasource \<Rightarrow> TimeRange \<Rightarrow> (MetricFindValue list) promise" where
  "tagKeys ds timeRange w = (getTagKeys ds timeRange, w\<lparr>calls := calls w @ [GetTagKeys timeRange]\<rparr>)"

section \<open>Time window\<close>

text \<open>
  Modelled from the spec: \<open>getPrometheusTime\<close> of \<open>./language_utils\<close> is not among the
  sources. Section 4.2 of the specification gives it: the instant (epoch milliseconds, the
  \<open>valueOf\<close> of the date) becomes whole seconds, floored when \<open>roundUp\<close> is false and
  ceiled when it is true.
\<close>

definition getPrometheusTime :: "int \<Rightarrow> bool \<Rightarrow> int" where
  "getPrometheusTime date roundUp = (if roundUp then - ((- date) div 1000) else date div 1000)"

section \<open>Handlers\<close>

text \<open>
  \<open>uniq\<close> of lodash keeps the first occurrence of each element; \<open>join\<close> is
  \<open>Array.prototype.join\<close>; \<open>orEmpty v\<close> is \<open>v || ''\<close>. \<open>timeParams\<close> holds the \<open>start\<close> and
  \<open>end\<close> entries that three of the handlers compute in the same way.
  The \<open>RegExp\<close> constructor of the language is the parameter \<open>RegExp\<close> of
  \<open>metricNameQuery\<close>: it gives the pattern or throws; the filter callback calls it once for
  each name.
\<close>

fun baseUniq :: "'a list \<Rightarrow> 'a list \<Rightarrow> 'a list" where
  "baseUniq [] res = res"
| "baseUniq (x # xs) res = (if x \<in> set res then baseUniq xs res else baseUniq xs (res @ [x]))"

definition uniq :: "'a list \<Rightarrow> 'a list" where
  "uniq xs = baseUniq xs []"

fun join :: "string \<Rightarrow> string list \<Rightarrow> string" where
  "join sep [] = []"
| "join sep [x] = x"
| "join sep (x # y # ys) = x @ sep @ join sep (y # ys)"

definition deleteKey :: "string \<Rightarrow> labelset \<Rightarrow> labelset" where
  "deleteKey k m = filter (\<lambda>(k', v). k' \<noteq> k) m"

definition orEmpty :: "string option \<Rightarrow> string" where
  "orEmpty v = (case v of None \<Rightarrow> [] | Some s \<Rightarrow> s)"

definition timeParams :: "TimeRange \<Rightarrow> params" where
  "timeParams timeRange =
     (let start = getPrometheusTime (rangeFrom timeRange) False;
          end' = getPrometheusTime (rangeTo timeRange) True
      in [(''start'', Some (numberToString start)), (''end'', Some (numberToString end'))])"

definition labelValuesQuery ::
  "datasource \<Rightarrow> TimeRange \<Rightarrow> string option \<Rightarrow> string option \<Rightarrow> (MetricFindValue list) promise" where
  "labelValuesQuery ds timeRange label metric =
     (let params = (if truthy metric then [(''match[]'', metric)] else []) @ timeParams timeRange
      in if \<not> truthy metric \<or> hasLabelsMatchAPISupport ds then
           thenP (request ds (''/api/v1/label/'' @ ToString label @ ''/values'') params)
             (\<lambda>result w.
                (case result of
                   Strings vs \<Rightarrow> Inr (map (\<lambda>value. \<lparr>itemText = value, expandable = None\<rparr>) vs)
                 | _ \<Rightarrow> Inl Unmodelled, w))
         else
           thenP (request ds ''/api/v1/series'' params)
             (\<lambda>result w.
                (case result of
                   SeriesList ms \<Rightarrow>
                     (let labels = filter (\<lambda>l. l \<noteq> [])
                                     (map (\<lambda>m. orEmpty (map_of m (ToString label))) ms)
                      in Inr (map (\<lambda>m. \<lparr>itemText = m, expandable = Some True\<rparr>) (uniq labels)))
                 | _ \<Rightarrow> Inl Unmodelled, w)))"

fun filterMetricNames :: "(string \<Rightarrow> error + regex) \<Rightarrow> string option \<Rightarrow> string list \<Rightarrow> error + string list" where
  "filterMetricNames RegExp metricFilterPattern [] = Inr []"
| "filterMetricNames RegExp metricFilterPattern (metricName # names) =
     (case RegExp (case metricFilterPattern of None \<Rightarrow> ''(?:)'' | Some p \<Rightarrow> p) of
        Inl e \<Rightarrow> Inl e
      | Inr r \<Rightarrow>
          (case filterMetricNames RegExp metricFilterPattern names of
             Inl e \<Rightarrow> Inl e
           | Inr kept \<Rightarrow> Inr (if test r metricName then metricName # kept else kept)))"

definition metricNameQuery ::
  "(string \<Rightarrow> error + regex) \<Rightarrow> datasource \<Rightarrow> TimeRange \<Rightarrow> string option \<Rightarrow> (MetricFindValue list) promise" where
  "metricNameQuery RegExp ds timeRange metricFilterPattern =
     thenP (request ds ''/api/v1/label/__name__/values'' (timeParams timeRange))
       (\<lambda>result w.
          (case result of
             Strings names \<Rightarrow>
               (case filterMetricNames RegExp metricFilterPattern names of
                  Inl e \<Rightarrow> Inl e
                | Inr kept \<Rightarrow> Inr (map (\<lambda>matchedMetricName. \<lparr>itemText = matchedMetricName, expandable = Some True\<rparr>) kept))
           | _ \<Rightarrow> Inl Unmodelled, w))"

definition labelPair :: "string \<times> string \<Rightarrow> string" where
  "labelPair kv = fst kv @ [CHR ''='', CHR 0x22] @ snd kv @ [CHR 0x22]"

fun decodeVector :: "sample list \<Rightarrow> world \<Rightarrow> MetricFindValue list \<times> world" where
  "decodeVector [] w = ([], w)"
| "decodeVector (metricData # rest) w =
     (let text0 = orEmpty (map_of (store w (metricRef metricData)) ''__name__'');
          w1 = w\<lparr>store := (store w)(metricRef metricData := deleteKey ''__name__'' (store w (metricRef metricData)))\<rparr>;
          text1 = text0 @ ''{'' @ join '','' (map labelPair (store w1 (metricRef metricData))) @ ''}'';
          text2 = text1 @ '' '' @ snd (valuePair metricData) @ '' ''
                    @ numberToString (fst (valuePair metricData) * 1000)
      in (case decodeVector rest w1 of
            (items, w') \<Rightarrow> (\<lparr>itemText = text2, expandable = Some True\<rparr> # items, w')))"

definition queryResultQuery :: "datasource \<Rightarrow> string option \<Rightarrow> (MetricFindValue list) promise" where
  "queryResultQuery ds query =
     thenP (request ds ''/api/v1/query'' [(''query'', query)])
       (\<lambda>result w.
          (case result of
             QueryData resultType res \<Rightarrow>
               if resultType = ''scalar'' \<or> resultType = ''string'' then
                 (case res of
                    ValuePair ts v \<Rightarrow> (Inr [\<lparr>itemText = orEmpty v, expandable = Some False\<rparr>], w)
                  | _ \<Rightarrow> (Inl Unmodelled, w))
               else if resultType = ''vector'' then
                 (case res of
                    Vector samples \<Rightarrow> (case decodeVector samples w of (items, w') \<Rightarrow> (Inr items, w'))
                  | _ \<Rightarrow> (Inl Unmodelled, w))
               else (Inl (Error (''Unknown/Unhandled result type: ['' @ resultType @ '']'')), w)
           | _ \<Rightarrow> (Inl Unmodelled, w)))"

definition metricNameAndLabelsQuery ::
  "datasource \<Rightarrow> TimeRange \<Rightarrow> string \<Rightarrow> (MetricFindValue list) promise" where
  "metricNameAndLabelsQuery ds timeRange query =
     thenP (request ds ''/api/v1/series'' ((''match[]'', Some query) # timeParams timeRange))
       (\<lambda>result w.
          (case result of
             SeriesList ms \<Rightarrow>
               Inr (map (\<lambda>m. \<lparr>itemText = getOriginalMetricName ds m, expandable = Some True\<rparr>) ms)
           | _ \<Rightarrow> Inl Unmodelled, w))"

section \<open>The classifier\<close>

definition process ::
  "(string \<Rightarrow> error + regex) \<Rightarrow> variableMigration \<Rightarrow> datasource \<Rightarrow> string \<Rightarrow> TimeRange
     \<Rightarrow> (MetricFindValue list) promise" where
  "process RegExp vm ds query timeRange =
     (let labelNamesQuery = match query (PrometheusLabelNamesRegex vm);
          labelNamesMatchQuery = match query (PrometheusLabelNamesRegexWithMatch vm)
      in case labelNamesMatchQuery of
           Some g \<Rightarrow>
             (let selector = ''{__name__=~'' @ [CHR 0x22] @ ''.*'' @ ToString (at g 1) @ ''.*'' @ [CHR 0x22] @ ''}''
              in thenP (seriesLabels ds selector [])
                   (\<lambda>results. resolve (map (\<lambda>result. \<lparr>itemText = result, expandable = None\<rparr>) results)))
         | None \<Rightarrow>
        (case labelNamesQuery of
           Some g \<Rightarrow> tagKeys ds timeRange
         | None \<Rightarrow>
        (case match query labelValuesRegex of
           Some g \<Rightarrow>
             (if truthy (at g 1) then labelValuesQuery ds timeRange (at g 2) (at g 1)
              else labelValuesQuery ds timeRange (at g 2) None)
         | None \<Rightarrow>
        (case match query (PrometheusMetricNamesRegex vm) of
           Some g \<Rightarrow> metricNameQuery RegExp ds timeRange (at g 1)
         | None \<Rightarrow>
        (case match query (PrometheusQueryResultRegex vm) of
           Some g \<Rightarrow> queryResultQuery ds (at g 1)
         | None \<Rightarrow>
             (if query \<notin> set [''label_values()'', ''metrics()'', ''query_result()'']
              then metricNameAndLabelsQuery ds timeRange query
              else resolve []))))))"

section \<open>Identifiers, single lines and the forms of the classifier\<close>

text \<open>
  The label syntax \<open>[a-zA-Z_][a-zA-Z0-9_]*\<close>, and text without a line terminator (what
  \<open>.\<close> can match).
\<close>

definition identStart :: "char \<Rightarrow> bool" where
  "identStart c = (c \<in> set ''abcdefghijklmnopqrstuvwxyzABCDEFGHIJKLMNOPQRSTUVWXYZ_'')"

definition identPart :: "char \<Rightarrow> bool" where
  "identPart c = (identStart c \<or> c \<in> set ''0123456789'')"

definition isIdentifier :: "string \<Rightarrow> bool" where
  "isIdentifier l = (case l of [] \<Rightarrow> False | c # cs \<Rightarrow> identStart c \<and> list_all identPart cs)"

definition singleLine :: "string \<Rightarrow> bool" where
  "singleLine s = list_all (\<lambda>c. \<not> lineTerminator c) s"

abbreviation "startClass \<equiv> [(CHR ''a'', CHR ''z''), (CHR ''A'', CHR ''Z''), (CHR ''_'', CHR ''_'')]"
abbreviation "partClass \<equiv> [(CHR ''a'', CHR ''z''), (CHR ''A'', CHR ''Z''), (CHR ''0'', CHR ''9''), (CHR ''_'', CHR ''_'')]"

abbreviation "labelGroup \<equiv> Group 2 (Seq (Class startClass) (Star (Class partClass)))"
abbreviation "metricGroup \<equiv> seqs [Group 1 (Plus Dot), Chr CHR '','', Star Space]"
abbreviation "labelTail \<equiv> seqs [labelGroup, Chr CHR '')'', Star Space, Eol]"

definition labelNamesFail :: "variableMigration \<Rightarrow> string \<Rightarrow> bool" where
  "labelNamesFail vm query =
     (match query (PrometheusLabelNamesRegexWithMatch vm) = None \<and> match query (PrometheusLabelNamesRegex vm) = None)"

text \<open>
  The states a greedy repetition of a single-character matcher leaves on a run \<open>xs\<close> of
  accepted characters followed by \<open>ys\<close>: the longest first.
\<close>

fun run :: "nat \<Rightarrow> string \<Rightarrow> string \<Rightarrow> captures \<Rightarrow> mstate list" where
  "run p [] ys cs = [(p, ys, cs)]"
| "run p (x # xs) ys cs = run (Suc p) xs ys cs @ [(p, x # xs @ ys, cs)]"

definition stops :: "(char \<Rightarrow> bool) \<Rightarrow> string \<Rightarrow> bool" where
  "stops ok ys = (case ys of [] \<Rightarrow> True | y # _ \<Rightarrow> \<not> ok y)"

section \<open>Reading results\<close>

text \<open>
  \<open>expandable\<close> is an optional field of \<open>MetricFindValue\<close>; an item without it is read
  as not expandable (the default of the data model).
\<close>

definition isExpandable :: "MetricFindValue \<Rightarrow> bool" where
  "isExpandable item = (case expandable item of None \<Rightarrow> False | Some b \<Rightarrow> b)"

definition logged :: "world \<Rightarrow> call \<Rightarrow> world" where
  "logged w c = w\<lparr>calls := calls w @ [c]\<rparr>"



section \<open>Concrete backends and queries for the examples\<close>

definition emptyWorld :: world where
  "emptyWorld = \<lparr>store = (\<lambda>a. []), calls = []\<rparr>"

definition backend :: "(string \<Rightarrow> params \<Rightarrow> error + payload) \<Rightarrow> bool \<Rightarrow> datasource" where
  "backend f b =
     \<lparr>metadataRequest = f, hasLabelsMatchAPISupport = b,
      getSeriesLabels = (\<lambda>selector ls. Inr []), getTagKeys = (\<lambda>r. Inr []),
      getOriginalMetricName = (\<lambda>m. orEmpty (map_of m ''__name__''))\<rparr>"

definition exampleRange :: TimeRange where
  "exampleRange = \<lparr>rangeFrom = 10900, rangeTo = 11100\<rparr>"

definition upStore :: world where
  "upStore = \<lparr>store = (\<lambda>a. if a = 0 then [(''__name__'', ''up''), (''instance'', ''a'')] else []), calls = []\<rparr>"

definition upSample :: sample where
  "upSample = \<lparr>metricRef = 0, valuePair = (1000, ''1'')\<rparr>"

definition upBackend :: datasource where
  "upBackend = backend (\<lambda>url ps. Inr (QueryData ''vector'' (Vector [upSample]))) False"

definition fooRegex :: regex where
  "fooRegex = Seq (lit ''foo'') (Star Dot)"

definition exampleRegExp :: "string \<Rightarrow> error + regex" where
  "exampleRegExp p = (if p = ''foo.*'' then Inr fooRegex else Inl (SyntaxError p))"

definition jobBackend :: datasource where
  "jobBackend =
     backend (\<lambda>url ps. if url = ''/api/v1/label/job/values'' then Inr (Strings [''a'', ''b''])
                        else Inl (Rejected ''404'')) True"


definition namesBackend :: datasource where
  "namesBackend = backend (\<lambda>url ps. Inr (Strings [''foobar'', ''baz'', ''xfoo''])) False"

text \<open>
  Modelled from the spec: the four patterns that \<open>process\<close> imports from
  \<open>./migrations/variableMigration\<close> are not among the sources. Section 4.1 of the
  specification gives their forms, \<open>label_names()\<close>, \<open>label_names(<matchExpr>)\<close>,
  \<open>metrics(<filterPattern>)\<close> and \<open>query_result(<rawQuery>)\<close>; they are written here in
  the manner of \<open>labelValuesRegex\<close>: anchored, the argument one or more characters, blanks
  allowed at the end. \<open>process\<close> takes the patterns as a parameter; these serve the examples.
\<close>

definition specMigration :: variableMigration where
  "specMigration =
     \<lparr>PrometheusLabelNamesRegex = seqs [Bol, lit ''label_names()'', Star Space, Eol],
      PrometheusLabelNamesRegexWithMatch = seqs [Bol, lit ''label_names('', Group 1 (Plus Dot), Chr CHR '')'', Star Space, Eol],
      PrometheusMetricNamesRegex = seqs [Bol, lit ''metrics('', Group 1 (Plus Dot), Chr CHR '')'', Star Space, Eol],
      PrometheusQueryResultRegex = seqs [Bol, lit ''query_result('', Group 1 (Plus Dot), Chr CHR '')'', Star Space, Eol]\<rparr>"

definition plainBackend :: datasource where
  "plainBackend = backend (\<lambda>url ps. Inr (Strings [])) True"

definition brokenLine :: string where
  "brokenLine = ''label_values(a'' @ [CHR 0x0A] @ ''b, job)''"

definition brokenArgs :: string where
  "brokenArgs = ''label_values(a,'' @ [CHR 0x0A] @ ''b, c)''"

section \<open>Requests and their continuation\<close>

lemma thenP_request:
  "thenP (request ds url ps) f w =
     (case metadataRequest ds url ps of
        Inl e \<Rightarrow> (Inl e, logged w (MetadataRequest url ps))
      | Inr x \<Rightarrow> f x (logged w (MetadataRequest url ps)))"
  by (simp add: thenP_def request_def logged_def split: sum.splits)

lemma backend_simps [simp]:
  "metadataRequest (backend f b) = f"
  "hasLabelsMatchAPISupport (backend f b) = b"
  by (simp_all add: backend_def)

section \<open>Unknown result types\<close>

text \<open>
  Claim C3. When the instant-query response reports a \<open>resultType\<close> other than
  \<open>scalar\<close>, \<open>string\<close> and \<open>vector\<close>, \<open>queryResultQuery\<close> rejects with the error whose
  message is \<open>Unknown/Unhandled result type: [\<close>, the reported type, \<open>]\<close>; it does not
  resolve to a list. For the three handled types it never rejects with an \<open>Error\<close>.
\<close>

theorem unknown_result_type_raises:
  assumes "metadataRequest ds ''/api/v1/query'' [(''query'', query)] = Inr (QueryData resultType res)"
  shows "(resultType \<notin> {''scalar'', ''string'', ''vector''} \<longrightarrow>
            queryResultQuery ds query w =
              (Inl (Error (''Unknown/Unhandled result type: ['' @ resultType @ '']'')),
               logged w (MetadataRequest ''/api/v1/query'' [(''query'', query)])))
       \<and> (resultType \<in> {''scalar'', ''string'', ''vector''} \<longrightarrow>
            (\<forall>msg. fst (queryResultQuery ds query w) \<noteq> Inl (Error msg)))"
proof (intro conjI impI)
  assume "resultType \<notin> {''scalar'', ''string'', ''vector''}"
  then show "queryResultQuery ds query w =
              (Inl (Error (''Unknown/Unhandled result type: ['' @ resultType @ '']'')),
               logged w (MetadataRequest ''/api/v1/query'' [(''query'', query)]))"
    using assms unfolding queryResultQuery_def thenP_request by simp
next
  assume "resultType \<in> {''scalar'', ''string'', ''vector''}"
  then show "\<forall>msg. fst (queryResultQuery ds query w) \<noteq> Inl (Error msg)"
    using assms unfolding queryResultQuery_def thenP_request
    by (cases res) (auto split: prod.splits)
qed

theorem unknown_result_type_raises_witness:
  "queryResultQuery (backend (\<lambda>url ps. Inr (QueryData ''matrix'' Opaque)) False) (Some ''up'') emptyWorld =
     (Inl (Error ''Unknown/Unhandled result type: [matrix]''),
      logged emptyWorld (MetadataRequest ''/api/v1/query'' [(''query'', Some ''up'')]))
   \<and> (\<forall>msg. fst (queryResultQuery (backend (\<lambda>url ps. Inr (QueryData ''vector'' (Vector []))) False)
                    (Some ''up'') emptyWorld) \<noteq> Inl (Error msg))"
  using unknown_result_type_raises
          [of "backend (\<lambda>url ps. Inr (QueryData ''matrix'' Opaque)) False" "Some ''up''" "''matrix''" Opaque emptyWorld]
        unknown_result_type_raises
          [of "backend (\<lambda>url ps. Inr (QueryData ''vector'' (Vector []))) False" "Some ''up''" "''vector''" "Vector []" emptyWorld]
  by simp

section \<open>The time window of the requests\<close>

lemma floor_seconds: "(date div 1000) * 1000 \<le> date \<and> date < (date div 1000 + 1) * (1000::int)"
proof -
  define q where "q = date div 1000"
  define r where "r = date mod 1000"
  have "0 \<le> r" "r < 1000" unfolding r_def by simp_all
  moreover have "date = q * 1000 + r" unfolding q_def r_def by simp
  ultimately have "q * 1000 \<le> date \<and> date < (q + 1) * 1000" by (simp add: algebra_simps)
  then show ?thesis unfolding q_def .
qed

lemma ceil_seconds:
  "(- ((- date) div 1000) - 1) * 1000 < date \<and> date \<le> (- ((- date) div 1000)) * (1000::int)"
proof -
  define q where "q = (- date) div 1000"
  have "q * 1000 \<le> - date \<and> - date < (q + 1) * 1000"
    unfolding q_def by (rule floor_seconds)
  then have "(- q - 1) * 1000 < date \<and> date \<le> (- q) * 1000"
    by (simp add: algebra_simps)
  then show ?thesis unfolding q_def .
qed

lemma timeParams_eq:
  "timeParams tr = [(''start'', Some (numberToString (rangeFrom tr div 1000))),
                    (''end'', Some (numberToString (- ((- rangeTo tr) div 1000))))]"
  by (simp add: timeParams_def getPrometheusTime_def)

lemma then_request_calls:
  "calls (snd (thenP (request ds url ps) (\<lambda>result w. (g result, w)) w)) = calls w @ [MetadataRequest url ps]"
  unfolding thenP_request by (cases "metadataRequest ds url ps") (simp_all add: logged_def)

lemma labelValuesQuery_calls:
  "calls (snd (labelValuesQuery ds tr label metric w)) =
     calls w @ [MetadataRequest
                 (if \<not> truthy metric \<or> hasLabelsMatchAPISupport ds
                  then ''/api/v1/label/'' @ ToString label @ ''/values'' else ''/api/v1/series'')
                 ((if truthy metric then [(''match[]'', metric)] else []) @ timeParams tr)]"
  unfolding labelValuesQuery_def Let_def
  by (simp only: then_request_calls if_distrib [of "\<lambda>p. calls (snd (p w))"] if_distrib [of "\<lambda>u. MetadataRequest u ps" for ps]
                 if_distrib [of "\<lambda>c. [c]"] if_distrib [of "\<lambda>c. calls w @ c"])

lemma natToString_digit: "n < 10 \<Longrightarrow> natToString n = [digitChar n]"
  by (subst natToString.simps) simp

lemma natToString_step: "10 \<le> n \<Longrightarrow> natToString n = natToString (n div 10) @ [digitChar (n mod 10)]"
  by (subst natToString.simps) simp

lemmas numberToString_eval = numberToString_def natToString_digit natToString_step digitChar_def

section \<open>Integers as decimal strings\<close>

lemma digitValue_digitChar: "n < 10 \<Longrightarrow> digitValue (digitChar n) = n"
proof -
  assume "n < 10"
  then have "n \<in> set [0, 1, 2, 3, 4, 5, 6, 7, 8, 9]" by auto
  then show ?thesis by (auto simp: digitValue_def digitChar_def)
qed

lemma digitChar_not_minus: "digitChar n \<noteq> CHR ''-''"
proof -
  have "n mod 10 \<in> set [0, 1, 2, 3, 4, 5, 6, 7, 8, 9]" by (simp) presburger
  then show ?thesis unfolding digitChar_def by auto
qed

lemma decimalNat_snoc: "decimalNat (s @ [c]) = 10 * decimalNat s + digitValue c"
  by (simp add: decimalNat_def)

lemma decimalNat_natToString: "decimalNat (natToString n) = n"
proof (induction n rule: natToString.induct)
  case (1 n)
  show ?case
  proof (cases "n < 10")
    case True
    then show ?thesis
      by (subst natToString.simps) (simp add: decimalNat_def digitValue_digitChar)
  next
    case False
    then have "natToString n = natToString (n div 10) @ [digitChar (n mod 10)]"
      by (subst natToString.simps) simp
    then show ?thesis using 1 False
      by (simp add: decimalNat_snoc digitValue_digitChar)
  qed
qed

lemma natToString_hd: "\<exists>d r. natToString n = digitChar d # r"
proof (induction n rule: natToString.induct)
  case (1 n)
  show ?case
  proof (cases "n < 10")
    case True
    then show ?thesis by (subst natToString.simps) auto
  next
    case False
    then have e: "natToString n = natToString (n div 10) @ [digitChar (n mod 10)]"
      by (subst natToString.simps) simp
    from 1 False obtain d r where "natToString (n div 10) = digitChar d # r" by blast
    then show ?thesis unfolding e by auto
  qed
qed

lemma decimalInt_numberToString: "decimalInt (numberToString i) = i"
proof (cases "i < 0")
  case True
  then show ?thesis by (simp add: decimalInt_def numberToString_def decimalNat_natToString)
next
  case False
  obtain d r where h: "natToString (nat i) = digitChar d # r" using natToString_hd by blast
  have "decimalNat (digitChar d # r) = nat i" using decimalNat_natToString [of "nat i"] h by simp
  then show ?thesis using False
    by (simp add: decimalInt_def numberToString_def h digitChar_not_minus)
qed

text \<open>
  Claim C4. Every request that carries a time window (the two branches of
  \<open>labelValuesQuery\<close>, \<open>metricNameQuery\<close>, \<open>metricNameAndLabelsQuery\<close>) carries
  \<open>start\<close>, the whole second at or below \<open>from\<close>, and \<open>end\<close>, the whole second at or
  above \<open>to\<close>, each written as the decimal string of that integer.
\<close>

theorem time_window_floor_ceil:
  "(let s = rangeFrom tr div 1000;
        e = - ((- rangeTo tr) div 1000);
        window = [(''start'', Some (numberToString s)), (''end'', Some (numberToString e))]
    in s * 1000 \<le> rangeFrom tr \<and> rangeFrom tr < (s + 1) * 1000
     \<and> (e - 1) * 1000 < rangeTo tr \<and> rangeTo tr \<le> e * 1000
     \<and> decimalInt (numberToString s) = s \<and> decimalInt (numberToString e) = e
     \<and> calls (snd (labelValuesQuery ds tr label metric w)) =
         calls w @ [MetadataRequest
                     (if \<not> truthy metric \<or> hasLabelsMatchAPISupport ds
                      then ''/api/v1/label/'' @ ToString label @ ''/values'' else ''/api/v1/series'')
                     ((if truthy metric then [(''match[]'', metric)] else []) @ window)]
     \<and> calls (snd (metricNameQuery RegExp ds tr pattern w)) =
         calls w @ [MetadataRequest ''/api/v1/label/__name__/values'' window]
     \<and> calls (snd (metricNameAndLabelsQuery ds tr query w)) =
         calls w @ [MetadataRequest ''/api/v1/series'' ((''match[]'', Some query) # window)])"
proof -
  have 1: "calls (snd (metricNameQuery RegExp ds tr pattern w)) =
         calls w @ [MetadataRequest ''/api/v1/label/__name__/values'' (timeParams tr)]"
    unfolding metricNameQuery_def by (rule then_request_calls)
  have 2: "calls (snd (metricNameAndLabelsQuery ds tr query w)) =
         calls w @ [MetadataRequest ''/api/v1/series'' ((''match[]'', Some query) # timeParams tr)]"
    unfolding metricNameAndLabelsQuery_def by (rule then_request_calls)
  show ?thesis
    using floor_seconds [of "rangeFrom tr"] ceil_seconds [of "rangeTo tr"]
    unfolding Let_def labelValuesQuery_calls 1 2 timeParams_eq
    by (simp add: decimalInt_numberToString)
qed

lemma numberToString_10: "numberToString 10 = ''10''"
  by (simp add: numberToString_eval)

lemma numberToString_12: "numberToString 12 = ''12''"
  by (simp add: numberToString_eval)

theorem time_window_floor_ceil_witness:
  "calls (snd (labelValuesQuery (backend (\<lambda>url ps. Inr (Strings [])) True) exampleRange (Some ''job'') (Some ''up'') emptyWorld)) =
     [MetadataRequest ''/api/v1/label/job/values'' [(''match[]'', Some ''up''), (''start'', Some ''10''), (''end'', Some ''12'')]]
   \<and> calls (snd (metricNameQuery (\<lambda>p. Inr fooRegex) (backend (\<lambda>url ps. Inr (Strings [])) True) exampleRange (Some ''foo.*'') emptyWorld)) =
     [MetadataRequest ''/api/v1/label/__name__/values'' [(''start'', Some ''10''), (''end'', Some ''12'')]]
   \<and> calls (snd (metricNameAndLabelsQuery (backend (\<lambda>url ps. Inr (Strings [])) True) exampleRange ''up'' emptyWorld)) =
     [MetadataRequest ''/api/v1/series'' [(''match[]'', Some ''up''), (''start'', Some ''10''), (''end'', Some ''12'')]]"
  using time_window_floor_ceil [of exampleRange "backend (\<lambda>url ps. Inr (Strings [])) True" "Some ''job''" "Some ''up''" emptyWorld
          "\<lambda>p. Inr fooRegex" "Some ''foo.*''" "''up''"]
  by (simp add: Let_def exampleRange_def emptyWorld_def truthy_def ToString_def numberToString_10 numberToString_12)

section \<open>Label values\<close>

text \<open>
  Claim C5. When no metric is given, or the backend supports \<open>match[]\<close> on the label
  endpoint, \<open>labelValuesQuery\<close> requests \<open>/api/v1/label/{label}/values\<close> and turns
  every value of the response into an item with that text and no \<open>expandable\<close> field,
  which reads as not expandable.
\<close>

theorem label_values_endpoint:
  assumes "\<not> truthy metric \<or> hasLabelsMatchAPISupport ds"
    and "metadataRequest ds (''/api/v1/label/'' @ label @ ''/values'')
           ((if truthy metric then [(''match[]'', metric)] else []) @ timeParams tr) = Inr (Strings vs)"
  shows "labelValuesQuery ds tr (Some label) metric w =
           (Inr (map (\<lambda>value. \<lparr>itemText = value, expandable = None\<rparr>) vs),
            logged w (MetadataRequest (''/api/v1/label/'' @ label @ ''/values'')
                        ((if truthy metric then [(''match[]'', metric)] else []) @ timeParams tr)))
       \<and> map isExpandable (map (\<lambda>value. \<lparr>itemText = value, expandable = None\<rparr>) vs)
           = replicate (length vs) False"
proof -
  have "map isExpandable (map (\<lambda>value. \<lparr>itemText = value, expandable = None\<rparr>) vs)
           = replicate (length vs) False"
    by (induction vs) (simp_all add: isExpandable_def)
  moreover have "labelValuesQuery ds tr (Some label) metric w =
           (Inr (map (\<lambda>value. \<lparr>itemText = value, expandable = None\<rparr>) vs),
            logged w (MetadataRequest (''/api/v1/label/'' @ label @ ''/values'')
                        ((if truthy metric then [(''match[]'', metric)] else []) @ timeParams tr)))"
    using assms unfolding labelValuesQuery_def Let_def thenP_request
    by (simp add: ToString_def)
  ultimately show ?thesis by simp
qed

theorem label_values_endpoint_witness:
  "labelValuesQuery jobBackend exampleRange (Some ''job'') None emptyWorld =
     (Inr [\<lparr>itemText = ''a'', expandable = None\<rparr>, \<lparr>itemText = ''b'', expandable = None\<rparr>],
      logged emptyWorld (MetadataRequest ''/api/v1/label/job/values'' (timeParams exampleRange)))
   \<and> labelValuesQuery jobBackend exampleRange (Some ''job'') (Some ''up'') emptyWorld =
     (Inr [\<lparr>itemText = ''a'', expandable = None\<rparr>, \<lparr>itemText = ''b'', expandable = None\<rparr>],
      logged emptyWorld (MetadataRequest ''/api/v1/label/job/values'' ((''match[]'', Some ''up'') # timeParams exampleRange)))
   \<and> map isExpandable [\<lparr>itemText = ''a'', expandable = None\<rparr>, \<lparr>itemText = ''b'', expandable = None\<rparr>] = [False, False]"
  using label_values_endpoint [of None jobBackend "''job''" exampleRange "[''a'', ''b'']" emptyWorld]
        label_values_endpoint [of "Some ''up''" jobBackend "''job''" exampleRange "[''a'', ''b'']" emptyWorld]
  by (simp add: truthy_def jobBackend_def)







section \<open>Metric names\<close>

lemma filterMetricNames_ok:
  "RegExp pattern = Inr r \<Longrightarrow> filterMetricNames RegExp (Some pattern) names = Inr (filter (test r) names)"
  by (induction names) simp_all

lemma execFrom_search:
  "(execFrom r p s \<noteq> None) = (\<exists>k\<le>length s. rm r (p + k, drop k s, []) \<noteq> [])"
proof (induction s arbitrary: p)
  case Nil
  show ?case by (subst execFrom.simps) (simp split: list.splits)
next
  case (Cons c s)
  show ?case
  proof (cases "rm r (p, c # s, [])")
    case (Cons st sts)
    then have "execFrom r p (c # s) \<noteq> None" by (subst execFrom.simps) simp
    moreover have "\<exists>k\<le>length (c # s). rm r (p + k, drop k (c # s), []) \<noteq> []"
      using Cons by (intro exI [of _ 0]) simp
    ultimately show ?thesis by simp
  next
    case Nil
    then have "execFrom r p (c # s) = execFrom r (Suc p) s" by (subst execFrom.simps) simp
    moreover have "(\<exists>k\<le>length (c # s). rm r (p + k, drop k (c # s), []) \<noteq> [])
                  = (\<exists>k\<le>length s. rm r (Suc p + k, drop k s, []) \<noteq> [])"
    proof
      assume "\<exists>k\<le>length (c # s). rm r (p + k, drop k (c # s), []) \<noteq> []"
      then obtain k where k: "k \<le> length (c # s)" "rm r (p + k, drop k (c # s), []) \<noteq> []" by blast
      with Nil have "k \<noteq> 0" by (cases k) auto
      then obtain j where "k = Suc j" by (cases k) auto
      with k show "\<exists>k\<le>length s. rm r (Suc p + k, drop k s, []) \<noteq> []"
        by (intro exI [of _ j]) simp
    next
      assume "\<exists>k\<le>length s. rm r (Suc p + k, drop k s, []) \<noteq> []"
      then obtain j where "j \<le> length s" "rm r (Suc p + j, drop j s, []) \<noteq> []" by blast
      then show "\<exists>k\<le>length (c # s). rm r (p + k, drop k (c # s), []) \<noteq> []"
        by (intro exI [of _ "Suc j"]) simp
    qed
    ultimately show ?thesis using Cons.IH [of "Suc p"] by simp
  qed
qed

lemma test_substring: "test r s = (\<exists>k\<le>length s. rm r (k, drop k s, []) \<noteq> [])"
  using execFrom_search [of r 0 s] by (simp add: test_def)

text \<open>
  Claim C7. \<open>metricNameQuery\<close> requests \<open>/api/v1/label/__name__/values\<close> and keeps, in
  backend order, exactly the names the regular expression built from the filter pattern
  matches somewhere (at some start position), each as an expandable item.
\<close>

theorem metric_names_filtered:
  assumes "RegExp pattern = Inr r"
    and "metadataRequest ds ''/api/v1/label/__name__/values'' (timeParams tr) = Inr (Strings names)"
  shows "metricNameQuery RegExp ds tr (Some pattern) w =
           (Inr (map (\<lambda>name. \<lparr>itemText = name, expandable = Some True\<rparr>) (filter (test r) names)),
            logged w (MetadataRequest ''/api/v1/label/__name__/values'' (timeParams tr)))
       \<and> (\<forall>name. test r name = (\<exists>k\<le>length name. rm r (k, drop k name, []) \<noteq> []))"
  using assms unfolding metricNameQuery_def thenP_request
  by (simp add: filterMetricNames_ok test_substring)

lemma foo_filter: "filter (test fooRegex) [''foobar'', ''baz'', ''xfoo''] = [''foobar'', ''xfoo'']"
  by code_simp

theorem metric_names_filtered_witness:
  "metricNameQuery exampleRegExp namesBackend exampleRange (Some ''foo.*'') emptyWorld =
     (Inr [\<lparr>itemText = ''foobar'', expandable = Some True\<rparr>, \<lparr>itemText = ''xfoo'', expandable = Some True\<rparr>],
      logged emptyWorld (MetadataRequest ''/api/v1/label/__name__/values'' (timeParams exampleRange)))"
proof -
  have a: "exampleRegExp ''foo.*'' = Inr fooRegex"
    by (simp add: exampleRegExp_def)
  have b: "metadataRequest namesBackend ''/api/v1/label/__name__/values'' (timeParams exampleRange)
             = Inr (Strings [''foobar'', ''baz'', ''xfoo''])"
    by (simp add: namesBackend_def)
  show ?thesis
    using metric_names_filtered [of exampleRegExp "''foo.*''" fooRegex namesBackend exampleRange
            "[''foobar'', ''baz'', ''xfoo'']" emptyWorld, OF a b, THEN conjunct1, unfolded foo_filter]
    by simp
qed

section \<open>Instant vectors\<close>

lemma deleteKey_idem: "deleteKey k (deleteKey k m) = deleteKey k m"
  by (simp add: deleteKey_def)

lemma decodeVector_world:
  "snd (decodeVector samples w) =
     w\<lparr>store := (\<lambda>a. if a \<in> metricRef ` set samples then deleteKey ''__name__'' (store w a) else store w a)\<rparr>"
proof (induction samples arbitrary: w)
  case Nil
  show ?case by simp
next
  case (Cons s samples)
  show ?case
    by (simp add: Let_def split_beta Cons.IH) (auto simp: fun_eq_iff deleteKey_idem)
qed


lemma queryResultQuery_vector:
  assumes "metadataRequest ds ''/api/v1/query'' [(''query'', query)] = Inr (QueryData ''vector'' (Vector samples))"
  shows "queryResultQuery ds query w =
           (Inr (fst (decodeVector samples (logged w (MetadataRequest ''/api/v1/query'' [(''query'', query)])))),
            snd (decodeVector samples (logged w (MetadataRequest ''/api/v1/query'' [(''query'', query)]))))"
  using assms unfolding queryResultQuery_def thenP_request
  by (simp add: split_beta)

lemma store_logged [simp]: "store (logged w c) = store w"
  by (simp add: logged_def)




text \<open>
  Claim C9. Decoding a \<open>vector\<close> response deletes \<open>__name__\<close> from the metric object of
  every sample in the store itself: afterwards the object at the address of each sample is
  the old one without that key, and no other object has changed.
\<close>

theorem vector_decoding_mutates_input:
  assumes "metadataRequest ds ''/api/v1/query'' [(''query'', query)] = Inr (QueryData ''vector'' (Vector samples))"
  shows "(\<forall>s\<in>set samples.
            store (snd (queryResultQuery ds query w)) (metricRef s) = deleteKey ''__name__'' (store w (metricRef s))
          \<and> ''__name__'' \<notin> fst ` set (store (snd (queryResultQuery ds query w)) (metricRef s)))
       \<and> (\<forall>a. a \<notin> metricRef ` set samples \<longrightarrow> store (snd (queryResultQuery ds query w)) a = store w a)"
  unfolding queryResultQuery_vector [OF assms]
  by (auto simp: decodeVector_world deleteKey_def)

theorem vector_decoding_mutates_input_witness:
  "store upStore 0 = [(''__name__'', ''up''), (''instance'', ''a'')]
   \<and> store (snd (queryResultQuery upBackend (Some ''up'') upStore)) 0 = [(''instance'', ''a'')]
   \<and> store (snd (queryResultQuery upBackend (Some ''up'') upStore)) 1 = store upStore 1"
proof -
  have a: "metadataRequest upBackend ''/api/v1/query'' [(''query'', Some ''up'')] = Inr (QueryData ''vector'' (Vector [upSample]))"
    by (simp add: upBackend_def)
  show ?thesis
    using vector_decoding_mutates_input [OF a, of upStore]
    by (simp add: upStore_def upSample_def deleteKey_def)
qed

section \<open>What the matcher does on runs of characters\<close>

lemma oneChar_Cons: "oneChar ok (p, x # xs, cs) = (if ok x then [(Suc p, xs, cs)] else [])"
  by (simp add: oneChar_def)

lemma oneChar_stops: "stops ok ys \<Longrightarrow> oneChar ok (p, ys, cs) = []"
  by (cases ys) (simp_all add: oneChar_def stops_def)

lemma clearCaptures_Nil [simp]: "clearCaptures [] st = st"
  by (cases st) (simp add: clearCaptures_def)

lemma repeatMatcher_run:
  "list_all ok xs \<Longrightarrow> stops ok ys \<Longrightarrow> length xs \<le> n \<Longrightarrow>
   repeatMatcher n (oneChar ok) [] (p, xs @ ys, cs) = run p xs ys cs"
proof (induction xs arbitrary: p n)
  case Nil
  then show ?case by (cases n) (simp_all add: oneChar_stops)
next
  case (Cons x xs)
  then obtain k where n: "n = Suc k" and k: "length xs \<le> k" by (cases n) auto
  have "repeatMatcher k (oneChar ok) [] (Suc p, xs @ ys, cs) = run (Suc p) xs ys cs"
    using Cons.IH [of k "Suc p"] Cons.prems k by simp
  then show ?case using Cons.prems
    by (simp add: n oneChar_Cons advanced_def)
qed

lemma run_hd_ex: "\<exists>t. run p xs ys cs = (p + length xs, ys, cs) # t"
proof (induction xs arbitrary: p)
  case Nil
  show ?case by simp
next
  case (Cons x xs)
  from Cons.IH [of "Suc p"] obtain t where "run (Suc p) xs ys cs = (Suc p + length xs, ys, cs) # t" by blast
  then show ?case by simp
qed

lemma run_hd: "run p xs ys cs = (p + length xs, ys, cs) # tl (run p xs ys cs)"
  using run_hd_ex [of p xs ys cs] by auto

lemma run_tl_heads:
  "st \<in> set (tl (run p xs ys cs)) \<Longrightarrow> \<exists>x r. fst (snd st) = x # r \<and> x \<in> set xs"
proof (induction xs arbitrary: p)
  case Nil
  then show ?case by simp
next
  case (Cons x xs)
  have "run (Suc p) xs ys cs \<noteq> []" by (subst run_hd) simp
  then have "tl (run p (x # xs) ys cs) = tl (run (Suc p) xs ys cs) @ [(p, x # xs @ ys, cs)]"
    by simp
  with Cons.prems have "st \<in> set (tl (run (Suc p) xs ys cs)) \<or> st = (p, x # xs @ ys, cs)" by auto
  then show ?case using Cons.IH [of "Suc p"] by auto
qed

lemma run_rests:
  "st \<in> set (run p xs [] cs) \<Longrightarrow> set (fst (snd st)) \<subseteq> set xs"
  by (induction xs arbitrary: p) auto

lemma concat_map_Nil: "(\<And>x. x \<in> set xs \<Longrightarrow> f x = []) \<Longrightarrow> concat (map f xs) = []"
  by (induction xs) simp_all

lemma rm_lit: "rm (lit t) (p, t @ rest, cs) = [(p + length t, rest, cs)]"
  by (induction t arbitrary: p) (simp_all add: lit_def oneChar_Cons)

lemma rm_star_oneChar:
  assumes "rm r = oneChar ok" "groups r = []" "list_all ok xs" "stops ok ys"
  shows "rm (Star r) (p, xs @ ys, cs) = run p xs ys cs"
  using assms by (simp add: repeatMatcher_run)

lemma rm_plus_oneChar:
  assumes "rm r = oneChar ok" "groups r = []" "ok x" "list_all ok xs" "stops ok ys"
  shows "rm (Plus r) (p, x # xs @ ys, cs) = run (Suc p) xs ys cs"
  using assms by (simp add: repeatMatcher_run oneChar_Cons)

lemma identStart_class: "identStart c \<Longrightarrow> inClass startClass c"
  unfolding identStart_def by (auto simp: inClass_def)

lemma identPart_class: "identPart c \<Longrightarrow> inClass partClass c"
  unfolding identPart_def identStart_def by (auto simp: inClass_def)

lemma identPart_plain:
  "identPart c \<Longrightarrow> c \<noteq> CHR '','' \<and> c \<noteq> CHR '')'' \<and> \<not> whiteSpace c \<and> \<not> lineTerminator c"
  unfolding identPart_def identStart_def by (auto simp: whiteSpace_def lineTerminator_def)

lemma identStart_Part: "identStart c \<Longrightarrow> identPart c"
  by (simp add: identPart_def)

lemma seqs_Cons: "rm (seqs (r # rs)) st = concat (map (rm (seqs rs)) (rm r st))"
  by (simp add: seqs_def)

lemma stops_Nil [simp]: "stops ok []"
  by (simp add: stops_def)

lemma stops_Cons [simp]: "stops ok (y # ys) = (\<not> ok y)"
  by (simp add: stops_def)

lemma run_append:
  "run p (a @ b) ys cs = run (p + length a) b ys cs @ tl (run p a (b @ ys) cs)"
proof (induction a arbitrary: p)
  case Nil
  show ?case by simp
next
  case (Cons x a)
  have ne: "run (Suc p) a (b @ ys) cs \<noteq> []" by (subst run_hd) simp
  show ?case using Cons.IH [of "Suc p"] ne by simp
qed

text \<open>the label, the closing parenthesis and the end of the input\<close>

lemma close_tail:
  "rm (seqs [Chr CHR '')'', Star Space, Eol]) (p, '')'', cs) = [(Suc p, [], cs)]"
  by (simp add: seqs_def oneChar_Cons)

lemma close_tail_fails:
  "x \<noteq> CHR '')'' \<Longrightarrow> rm (seqs [Chr CHR '')'', Star Space, Eol]) (p, x # r, cs) = []"
  by (simp add: seqs_def oneChar_Cons)

lemma label_tail:
  assumes "isIdentifier l"
  shows "rm labelTail (q, l @ '')'', cs) = [(q + length l + 1, [], (2, l) # filter (\<lambda>(k, v). k \<noteq> 2) cs)]"
proof -
  from assms obtain c l' where l: "l = c # l'" and c: "identStart c" and l': "list_all identPart l'"
    by (cases l) (auto simp: isIdentifier_def)
  have st: "stops (inClass partClass) '')''" by (simp add: inClass_def)
  have cls: "list_all (inClass partClass) l'"
    using l' by (induction l') (simp_all add: identPart_class)
  have star: "rm (Star (Class partClass)) (Suc q, l' @ '')'', cs) = run (Suc q) l' '')'' cs"
    by (rule rm_star_oneChar [OF _ _ cls st]) simp_all
  have inner: "rm (Seq (Class startClass) (Star (Class partClass))) (q, l @ '')'', cs) = run (Suc q) l' '')'' cs"
    using star identStart_class [OF c] by (simp add: l oneChar_Cons)
  define wrap :: "mstate \<Rightarrow> mstate" where
    "wrap = (\<lambda>(p', s', cs'). (p', s', (2, take (p' - q) (l @ '')'')) # filter (\<lambda>(k, v). k \<noteq> 2) cs'))"
  have grp: "rm labelGroup (q, l @ '')'', cs) = map wrap (run (Suc q) l' '')'' cs)"
    using inner by (simp add: wrap_def)
  define f where "f = rm (seqs [Chr CHR '')'', Star Space, Eol])"
  have hd: "f (wrap (Suc q + length l', '')'', cs)) = [(q + length l + 1, [], (2, l) # filter (\<lambda>(k, v). k \<noteq> 2) cs)]"
    unfolding f_def wrap_def by (simp add: close_tail l)
  have tl: "concat (map f (map wrap (tl (run (Suc q) l' '')'' cs)))) = []"
  proof (rule concat_map_Nil)
    fix st assume "st \<in> set (map wrap (tl (run (Suc q) l' '')'' cs)))"
    then obtain st0 where st0: "st0 \<in> set (tl (run (Suc q) l' '')'' cs))" and st: "st = wrap st0" by auto
    from run_tl_heads [OF st0] obtain x r where xr: "fst (snd st0) = x # r" "x \<in> set l'" by blast
    with l' have "identPart x" by (simp add: list_all_iff)
    then have "x \<noteq> CHR '')''" using identPart_plain by blast
    then show "f st = []"
      unfolding f_def st wrap_def using xr(1) by (cases st0) (simp add: close_tail_fails)
  qed
  have "rm labelTail (q, l @ '')'', cs) = concat (map f (map wrap (run (Suc q) l' '')'' cs)))"
    unfolding seqs_Cons [of labelGroup] grp f_def ..
  also have "\<dots> = f (wrap (Suc q + length l', '')'', cs)) @ concat (map f (map wrap (tl (run (Suc q) l' '')'' cs))))"
    by (subst run_hd) simp
  finally show ?thesis by (simp only: hd tl append_Nil2)
qed

lemma comma_fails:
  "set s \<subseteq> A \<Longrightarrow> CHR '','' \<notin> A \<Longrightarrow> rm (seqs [Chr CHR '','', Star Space]) (p, s, cs) = []"
  by (cases s) (auto simp: seqs_def oneChar_def)

lemma plus_dot:
  assumes "singleLine (c # R')"
  shows "rm (Group 1 (Plus Dot)) (p, c # R', cs) =
           map (\<lambda>(p', s', cs'). (p', s', (1, take (p' - p) (c # R')) # filter (\<lambda>(k, v). k \<noteq> 1) cs'))
             (run (Suc p) R' [] cs)"
proof -
  have "rm (Plus Dot) (p, c # R' @ [], cs) = run (Suc p) R' [] cs"
    using assms by (intro rm_plus_oneChar [where ok = "\<lambda>x. \<not> lineTerminator x"]) (simp_all add: singleLine_def)
  then show ?thesis by simp
qed

lemma metric_group_none:
  assumes "R \<noteq> []" "singleLine R" "CHR '','' \<notin> set R"
  shows "rm metricGroup (p, R, cs) = []"
proof -
  from assms(1) obtain c R' where R: "R = c # R'" by (cases R) auto
  define wrap :: "mstate \<Rightarrow> mstate" where
    "wrap = (\<lambda>(p', s', cs'). (p', s', (1, take (p' - p) (c # R')) # filter (\<lambda>(k, v). k \<noteq> 1) cs'))"
  have grp: "rm (Group 1 (Plus Dot)) (p, R, cs) = map wrap (run (Suc p) R' [] cs)"
    unfolding R wrap_def using assms(2) R by (intro plus_dot) simp
  have "concat (map (rm (seqs [Chr CHR '','', Star Space])) (map wrap (run (Suc p) R' [] cs))) = []"
  proof (rule concat_map_Nil)
    fix st assume "st \<in> set (map wrap (run (Suc p) R' [] cs))"
    then obtain st0 where st0: "st0 \<in> set (run (Suc p) R' [] cs)" and st: "st = wrap st0" by auto
    obtain p0 s0 cs0 where t: "st0 = (p0, s0, cs0)" by (cases st0) auto
    have "set s0 \<subseteq> set R'" using run_rests [OF st0] t by simp
    then have "rm (seqs [Chr CHR '','', Star Space]) (p0, s0, (1, take (p0 - p) (c # R')) # filter (\<lambda>(k, v). k \<noteq> 1) cs0) = []"
      using assms(3) R by (intro comma_fails [where A = "set R'"]) auto
    then show "rm (seqs [Chr CHR '','', Star Space]) st = []"
      by (simp add: st t wrap_def)
  qed
  then show ?thesis
    unfolding seqs_Cons [of "Group 1 (Plus Dot)"] grp .
qed

lemma comma_space:
  assumes "isIdentifier l"
  shows "rm (seqs [Chr CHR '','', Star Space]) (q, CHR '','' # CHR '' '' # l @ '')'', cs) =
           [(q + 2, l @ '')'', cs), (q + 1, CHR '' '' # l @ '')'', cs)]"
proof -
  from assms obtain c l' where l: "l = c # l'" and c: "identStart c"
    by (cases l) (auto simp: isIdentifier_def)
  have nw: "\<not> whiteSpace c" using identPart_plain [OF identStart_Part [OF c]] by simp
  have sp: "whiteSpace CHR '' ''" by (simp add: whiteSpace_def)
  have "rm (Star Space) (Suc q, '' '' @ (l @ '')''), cs) = run (Suc q) '' '' (l @ '')'') cs"
    by (rule rm_star_oneChar [where ok = whiteSpace]) (simp_all add: l nw sp)
  then show ?thesis
    by (simp add: seqs_def oneChar_Cons)
qed

lemma metric_group_hd:
  assumes "m \<noteq> []" "singleLine m" "isIdentifier l"
  shows "\<exists>t. rm metricGroup (p, m @ '', '' @ l @ '')'', cs) =
           (p + length m + 2, l @ '')'', (1, m) # filter (\<lambda>(k, v). k \<noteq> 1) cs) # t"
proof -
  from assms(1) obtain c m' where m: "m = c # m'" by (cases m) auto
  from assms(3) obtain d l' where l: "l = d # l'" and d: "identStart d" and l': "list_all identPart l'"
    by (cases l) (auto simp: isIdentifier_def)
  define T' where "T' = CHR '' '' # l @ '')''"
  define T where "T = CHR '','' # T'"
  define R' where "R' = m' @ T"
  have whole: "m @ '', '' @ l @ '')'' = c # R'"
    by (simp add: m R'_def T_def T'_def)
  have idl: "\<forall>x\<in>set l. identPart x"
    using d l' by (auto simp: l list_all_iff identStart_Part)
  have sl: "singleLine (c # R')"
    using assms(2) idl identPart_plain
    by (auto simp: singleLine_def m list_all_iff lineTerminator_def R'_def T_def T'_def)
  define wrap :: "mstate \<Rightarrow> mstate" where
    "wrap = (\<lambda>(p', s', cs'). (p', s', (1, take (p' - p) (c # R')) # filter (\<lambda>(k, v). k \<noteq> 1) cs'))"
  define C where "C = rm (seqs [Chr CHR '','', Star Space])"
  define caps where "caps = (1, m) # filter (\<lambda>(k, v). k \<noteq> 1) cs"
  define S1 where "S1 = run (Suc (Suc p + length m')) T' [] cs"
  define S3 where "S3 = tl (run (Suc p) m' (T @ []) cs)"
  have grp: "rm (Group 1 (Plus Dot)) (p, c # R', cs) = map wrap (run (Suc p) R' [] cs)"
    unfolding wrap_def by (rule plus_dot [OF sl])
  have split: "run (Suc p) R' [] cs = S1 @ [(Suc p + length m', T, cs)] @ S3"
    unfolding R'_def S1_def S3_def by (subst run_append) (simp add: T_def)
  have nocomma: "CHR '','' \<notin> set T'"
    using idl identPart_plain by (auto simp: T'_def)
  have first: "concat (map C (map wrap S1)) = []"
  proof (rule concat_map_Nil)
    fix st assume "st \<in> set (map wrap S1)"
    then obtain st0 where st0: "st0 \<in> set (run (Suc (Suc p + length m')) T' [] cs)" and st: "st = wrap st0"
      by (auto simp: S1_def)
    obtain p0 s0 cs0 where t: "st0 = (p0, s0, cs0)" by (cases st0) auto
    have "set s0 \<subseteq> set T'" using run_rests [OF st0] t by simp
    then have "rm (seqs [Chr CHR '','', Star Space]) (p0, s0, (1, take (p0 - p) (c # R')) # filter (\<lambda>(k, v). k \<noteq> 1) cs0) = []"
      using nocomma by (intro comma_fails [where A = "set T'"])
    then show "C st = []"
      by (simp add: st t wrap_def C_def)
  qed
  have mid: "C (wrap (Suc p + length m', T, cs)) =
      [(p + length m + 2, l @ '')'', caps), (p + length m + 1, CHR '' '' # l @ '')'', caps)]"
    unfolding C_def wrap_def T_def T'_def
    using comma_space [OF assms(3), of "Suc p + length m'" caps]
    by (simp add: caps_def m R'_def)
  have "rm metricGroup (p, c # R', cs) = concat (map C (map wrap (S1 @ [(Suc p + length m', T, cs)] @ S3)))"
    unfolding seqs_Cons [of "Group 1 (Plus Dot)"] grp C_def split ..
  also have "\<dots> = concat (map C (map wrap S1)) @ C (wrap (Suc p + length m', T, cs)) @ concat (map C (map wrap S3))"
    by simp
  finally have "rm metricGroup (p, c # R', cs) =
      (p + length m + 2, l @ '')'', caps)
      # ((p + length m + 1, CHR '' '' # l @ '')'', caps) # concat (map C (map wrap S3)))"
    by (simp only: first mid append_Nil append_Cons)
  then show ?thesis unfolding whole caps_def by blast
qed

section \<open>What \<open>labelValuesRegex\<close> matches\<close>

lemma groups_labelValuesRegex: "groups labelValuesRegex = [1, 2]"
  by (simp add: labelValuesRegex_def seqs_def lit_def)

lemma execFrom_hd:
  "rm r (p, s, []) = st # t \<Longrightarrow> execFrom r p s = Some (matchArray r s p st)"
  by (subst execFrom.simps) simp

lemma labelValuesRegex_rm:
  "rm labelValuesRegex (0, ''label_values('' @ R, []) =
     concat (map (rm labelTail) (filter (advanced (13, R, [])) (rm metricGroup (13, R, [])) @ [(13, R, [])]))"
proof -
  have "rm (lit ''label_values('') (0, ''label_values('' @ R, []) = [(0 + length ''label_values('', R, [])]"
    by (rule rm_lit)
  then have l: "rm (lit ''label_values('') (0, ''label_values('' @ R, []) = [(13, R, [])]"
    by simp
  have c: "\<And>gs. clearCaptures gs (13, R, []) = (13, R, [])" by (simp add: clearCaptures_def)
  show ?thesis
    unfolding labelValuesRegex_def seqs_Cons [of Bol] seqs_Cons [of "lit ''label_values(''"] seqs_Cons [of "Opt metricGroup"]
    by (simp add: l c del: append.simps)
qed

lemma match_label_only:
  assumes "isIdentifier l"
  shows "match (''label_values('' @ l @ '')'') labelValuesRegex =
           Some [Some (''label_values('' @ l @ '')''), None, Some l]"
proof -
  from assms obtain c l' where l: "l = c # l'" and c: "identStart c" and l': "list_all identPart l'"
    by (cases l) (auto simp: isIdentifier_def)
  have idl: "\<forall>x\<in>set l. identPart x"
    using c l' by (auto simp: l list_all_iff identStart_Part)
  have sl: "singleLine (l @ '')'')"
    using idl identPart_plain by (auto simp: singleLine_def list_all_iff lineTerminator_def)
  have nc: "CHR '','' \<notin> set (l @ '')'')"
    using idl identPart_plain by auto
  have none: "rm metricGroup (13, l @ '')'', []) = []"
    by (rule metric_group_none [OF _ sl nc]) simp
  have "rm labelValuesRegex (0, ''label_values('' @ (l @ '')''), []) = [(13 + length l + 1, [], [(2, l)])]"
    unfolding labelValuesRegex_rm none using label_tail [OF assms, of 13 "[]"] by simp
  then have "execFrom labelValuesRegex 0 (''label_values('' @ l @ '')'')
               = Some (matchArray labelValuesRegex (''label_values('' @ l @ '')'') 0 (13 + length l + 1, [], [(2, l)]))"
    by (intro execFrom_hd) simp
  then show ?thesis
    by (simp add: match_def matchArray_def groups_labelValuesRegex upt_conv_Cons)
qed

lemma match_metric_label:
  assumes "m \<noteq> []" "singleLine m" "isIdentifier l"
  shows "match (''label_values('' @ m @ '', '' @ l @ '')'') labelValuesRegex =
           Some [Some (''label_values('' @ m @ '', '' @ l @ '')''), Some m, Some l]"
proof -
  define R where "R = m @ '', '' @ l @ '')''"
  from metric_group_hd [OF assms, of 13 "[]"] obtain t where
    g: "rm metricGroup (13, R, []) = (13 + length m + 2, l @ '')'', [(1, m)]) # t"
    unfolding R_def by auto
  have adv: "advanced (13, R, []) (13 + length m + 2, l @ '')'', [(1, m)])"
    by (simp add: advanced_def)
  have "rm labelValuesRegex (0, ''label_values('' @ R, []) =
          rm labelTail (13 + length m + 2, l @ '')'', [(1, m)])
          @ concat (map (rm labelTail) (filter (advanced (13, R, [])) t @ [(13, R, [])]))"
    unfolding labelValuesRegex_rm g using adv by simp
  also have "rm labelTail (13 + length m + 2, l @ '')'', [(1, m)]) = [(13 + length m + 2 + length l + 1, [], [(2, l), (1, m)])]"
    using label_tail [OF assms(3), of "13 + length m + 2" "[(1, m)]"] by simp
  finally have "\<exists>t'. rm labelValuesRegex (0, ''label_values('' @ R, []) =
          (13 + length m + 2 + length l + 1, [], [(2, l), (1, m)]) # t'"
    by simp
  then obtain t' where "rm labelValuesRegex (0, ''label_values('' @ R, []) =
          (13 + length m + 2 + length l + 1, [], [(2, l), (1, m)]) # t'" by blast
  then have "execFrom labelValuesRegex 0 (''label_values('' @ R)
               = Some (matchArray labelValuesRegex (''label_values('' @ R) 0 (13 + length m + 2 + length l + 1, [], [(2, l), (1, m)]))"
    by (rule execFrom_hd)
  then show ?thesis
    by (simp add: match_def matchArray_def groups_labelValuesRegex upt_conv_Cons R_def)
qed

section \<open>Classification\<close>

lemma process_label_values:
  assumes "labelNamesFail vm query" "match query labelValuesRegex = Some [whole, metric, label]"
  shows "process RegExp vm ds query tr =
           (if truthy metric then labelValuesQuery ds tr label metric else labelValuesQuery ds tr label None)"
  using assms by (simp add: process_def labelNamesFail_def at_def)

lemma seriesLabels_calls:
  "calls (snd (thenP (seriesLabels ds selector ls) (\<lambda>results. resolve (g results)) w)) = calls w @ [GetSeriesLabels selector ls]"
  by (cases "getSeriesLabels ds selector ls") (simp_all add: thenP_def seriesLabels_def resolve_def)

lemma spec_fail_up: "labelNamesFail specMigration ''label_values(up)''"
  unfolding labelNamesFail_def by code_simp

lemma spec_fail_metric: "labelNamesFail specMigration ''label_values(my_metric, job)''"
  unfolding labelNamesFail_def by code_simp

lemma spec_fail_abc: "labelNamesFail specMigration ''label_values(a, b, c)''"
  unfolding labelNamesFail_def by code_simp

lemma ident_examples: "isIdentifier ''up''" "isIdentifier ''job''" "isIdentifier ''c''"
  by (simp_all add: isIdentifier_def identStart_def identPart_def)

lemma singleLine_examples: "singleLine ''my_metric''" "singleLine ''a, b''"
  by (simp_all add: singleLine_def lineTerminator_def)

lemma broken_line_matches:
  "match brokenLine (PrometheusLabelNamesRegexWithMatch specMigration) = None"
  "match brokenLine (PrometheusLabelNamesRegex specMigration) = None"
  "match brokenLine labelValuesRegex = None"
  "match brokenLine (PrometheusMetricNamesRegex specMigration) = None"
  "match brokenLine (PrometheusQueryResultRegex specMigration) = None"
  by code_simp+

lemma broken_args_matches:
  "match brokenArgs (PrometheusLabelNamesRegexWithMatch specMigration) = None"
  "match brokenArgs (PrometheusLabelNamesRegex specMigration) = None"
  "match brokenArgs labelValuesRegex = None"
  "match brokenArgs (PrometheusMetricNamesRegex specMigration) = None"
  "match brokenArgs (PrometheusQueryResultRegex specMigration) = None"
  by code_simp+

lemma empty_metric_not_matched: "match ''label_values(, job)'' labelValuesRegex = None"
  by code_simp

lemma process_freeform:
  assumes "match query (PrometheusLabelNamesRegexWithMatch vm) = None"
    "match query (PrometheusLabelNamesRegex vm) = None"
    "match query labelValuesRegex = None"
    "match query (PrometheusMetricNamesRegex vm) = None"
    "match query (PrometheusQueryResultRegex vm) = None"
  shows "process RegExp vm ds query tr =
          (if query \<notin> set [''label_values()'', ''metrics()'', ''query_result()'']
           then metricNameAndLabelsQuery ds tr query else resolve [])"
  using assms by (simp add: process_def)

lemma metricNameAndLabelsQuery_calls:
  "calls (snd (metricNameAndLabelsQuery ds tr query w)) =
         calls w @ [MetadataRequest ''/api/v1/series'' ((''match[]'', Some query) # timeParams tr)]"
  unfolding metricNameAndLabelsQuery_def by (rule then_request_calls)

text \<open>
  Claim C1, as the code has it. For a label that is an identifier, \<open>label_values(label)\<close>
  is resolved by \<open>labelValuesQuery\<close> with that label and no metric, and
  \<open>label_values(metric, label)\<close> with that label and that metric when the metric is not
  empty and contains no line terminator; both only when neither \<open>label_names\<close> pattern
  matches the query. A query that the \<open>label_names\<close> pattern with a match expression
  matches goes to \<open>getSeriesLabels\<close>, and one that only the bare pattern matches to
  \<open>getTagKeys\<close>, whatever else it matches.
\<close>

theorem label_values_classified:
  assumes "isIdentifier label"
  shows "(labelNamesFail vm (''label_values('' @ label @ '')'') \<longrightarrow>
            process RegExp vm ds (''label_values('' @ label @ '')'') tr = labelValuesQuery ds tr (Some label) None)
       \<and> (metric \<noteq> [] \<and> singleLine metric \<and> labelNamesFail vm (''label_values('' @ metric @ '', '' @ label @ '')'') \<longrightarrow>
            process RegExp vm ds (''label_values('' @ metric @ '', '' @ label @ '')'') tr
              = labelValuesQuery ds tr (Some label) (Some metric))
       \<and> (\<forall>g. match query (PrometheusLabelNamesRegexWithMatch vm) = Some g \<longrightarrow>
            calls (snd (process RegExp vm ds query tr w)) =
              calls w @ [GetSeriesLabels (''{__name__=~'' @ [CHR 0x22] @ ''.*'' @ ToString (at g 1) @ ''.*'' @ [CHR 0x22] @ ''}'') []])
       \<and> (match query (PrometheusLabelNamesRegexWithMatch vm) = None \<and> match query (PrometheusLabelNamesRegex vm) \<noteq> None \<longrightarrow>
            process RegExp vm ds query tr = tagKeys ds tr)"
proof (intro conjI impI allI)
  assume "labelNamesFail vm (''label_values('' @ label @ '')'')"
  then show "process RegExp vm ds (''label_values('' @ label @ '')'') tr = labelValuesQuery ds tr (Some label) None"
    using process_label_values [OF _ match_label_only [OF assms]] by (simp add: truthy_def)
next
  assume a: "metric \<noteq> [] \<and> singleLine metric \<and> labelNamesFail vm (''label_values('' @ metric @ '', '' @ label @ '')'')"
  then have "match (''label_values('' @ metric @ '', '' @ label @ '')'') labelValuesRegex =
           Some [Some (''label_values('' @ metric @ '', '' @ label @ '')''), Some metric, Some label]"
    using match_metric_label [OF _ _ assms] by blast
  from process_label_values [OF _ this] a
  show "process RegExp vm ds (''label_values('' @ metric @ '', '' @ label @ '')'') tr
              = labelValuesQuery ds tr (Some label) (Some metric)"
    by (simp add: truthy_def)
next
  fix g assume "match query (PrometheusLabelNamesRegexWithMatch vm) = Some g"
  then show "calls (snd (process RegExp vm ds query tr w)) =
              calls w @ [GetSeriesLabels (''{__name__=~'' @ [CHR 0x22] @ ''.*'' @ ToString (at g 1) @ ''.*'' @ [CHR 0x22] @ ''}'') []]"
    unfolding process_def Let_def by (simp only: option.case seriesLabels_calls)
next
  assume "match query (PrometheusLabelNamesRegexWithMatch vm) = None \<and> match query (PrometheusLabelNamesRegex vm) \<noteq> None"
  then show "process RegExp vm ds query tr = tagKeys ds tr"
    by (auto simp: process_def)
qed

theorem label_values_classified_witness:
  "process exampleRegExp specMigration plainBackend ''label_values(up)'' exampleRange
     = labelValuesQuery plainBackend exampleRange (Some ''up'') None
   \<and> process exampleRegExp specMigration plainBackend ''label_values(my_metric, job)'' exampleRange
     = labelValuesQuery plainBackend exampleRange (Some ''job'') (Some ''my_metric'')"
  using label_values_classified [OF ident_examples(1), of specMigration exampleRegExp plainBackend exampleRange, THEN conjunct1]
        label_values_classified [OF ident_examples(2), of specMigration exampleRegExp plainBackend exampleRange "''my_metric''",
          THEN conjunct2, THEN conjunct1]
        spec_fail_up spec_fail_metric singleLine_examples(1)
  by simp

text \<open>
  Claim C1 as stated, for every metric, fails: \<open>.\<close> does not match a line feed, so a
  metric of two lines is not captured, no rule matches, and the query is sent whole to
  \<open>/api/v1/series\<close> as a series selector. (An empty metric is not captured either.)
\<close>

theorem multiline_metric_counterexample:
  "brokenLine = ''label_values('' @ (''a'' @ [CHR 0x0A] @ ''b'') @ '', '' @ ''job'' @ '')''
   \<and> match brokenLine labelValuesRegex = None
   \<and> process exampleRegExp specMigration plainBackend brokenLine exampleRange
       = metricNameAndLabelsQuery plainBackend exampleRange brokenLine
   \<and> process exampleRegExp specMigration plainBackend brokenLine exampleRange emptyWorld
       \<noteq> labelValuesQuery plainBackend exampleRange (Some ''job'') (Some (''a'' @ [CHR 0x0A] @ ''b'')) emptyWorld"
proof -
  have p: "process exampleRegExp specMigration plainBackend brokenLine exampleRange
       = metricNameAndLabelsQuery plainBackend exampleRange brokenLine"
    unfolding process_freeform [OF broken_line_matches] by (simp add: brokenLine_def)
  have "calls (snd (metricNameAndLabelsQuery plainBackend exampleRange brokenLine emptyWorld))
        \<noteq> calls (snd (labelValuesQuery plainBackend exampleRange (Some ''job'') (Some (''a'' @ [CHR 0x0A] @ ''b'')) emptyWorld))"
    unfolding metricNameAndLabelsQuery_calls labelValuesQuery_calls
    by (simp add: truthy_def plainBackend_def)
  then have "metricNameAndLabelsQuery plainBackend exampleRange brokenLine emptyWorld
        \<noteq> labelValuesQuery plainBackend exampleRange (Some ''job'') (Some (''a'' @ [CHR 0x0A] @ ''b'')) emptyWorld"
    by metis
  then show ?thesis
    using p broken_line_matches(3) by (simp add: brokenLine_def)
qed

section \<open>The reserved empty forms\<close>





section \<open>Argument lists with commas\<close>

text \<open>
  Claim C10, as the code has it. For \<open>label_values(args, label)\<close> with an identifier as
  label and \<open>args\<close> not empty and without a line terminator, commas or not, the pattern
  matches with \<open>args\<close> whole as the metric, and the request carries it as \<open>match[]\<close>.
\<close>

theorem multi_argument_label_values:
  assumes "isIdentifier label" and "args \<noteq> []" and "singleLine args"
    and "labelNamesFail vm (''label_values('' @ args @ '', '' @ label @ '')'')"
  shows "match (''label_values('' @ args @ '', '' @ label @ '')'') labelValuesRegex
           = Some [Some (''label_values('' @ args @ '', '' @ label @ '')''), Some args, Some label]
       \<and> process RegExp vm ds (''label_values('' @ args @ '', '' @ label @ '')'') tr
           = labelValuesQuery ds tr (Some label) (Some args)
       \<and> calls (snd (process RegExp vm ds (''label_values('' @ args @ '', '' @ label @ '')'') tr w))
           = calls w @ [MetadataRequest
                          (if hasLabelsMatchAPISupport ds then ''/api/v1/label/'' @ label @ ''/values''
                           else ''/api/v1/series'')
                          ((''match[]'', Some args) # timeParams tr)]"
proof -
  have m: "match (''label_values('' @ args @ '', '' @ label @ '')'') labelValuesRegex
           = Some [Some (''label_values('' @ args @ '', '' @ label @ '')''), Some args, Some label]"
    by (rule match_metric_label [OF assms(2) assms(3) assms(1)])
  have p: "process RegExp vm ds (''label_values('' @ args @ '', '' @ label @ '')'') tr
           = labelValuesQuery ds tr (Some label) (Some args)"
    using process_label_values [OF assms(4) m] assms(2) by (simp add: truthy_def)
  have c: "calls (snd (labelValuesQuery ds tr (Some label) (Some args) w))
           = calls w @ [MetadataRequest
                          (if hasLabelsMatchAPISupport ds then ''/api/v1/label/'' @ label @ ''/values''
                           else ''/api/v1/series'')
                          ((''match[]'', Some args) # timeParams tr)]"
    unfolding labelValuesQuery_calls using assms(2) by (simp add: truthy_def ToString_def)
  show ?thesis using m p c by simp
qed

theorem multi_argument_label_values_witness:
  "match ''label_values(a, b, c)'' labelValuesRegex = Some [Some ''label_values(a, b, c)'', Some ''a, b'', Some ''c'']
   \<and> process exampleRegExp specMigration plainBackend ''label_values(a, b, c)'' exampleRange
       = labelValuesQuery plainBackend exampleRange (Some ''c'') (Some ''a, b'')
   \<and> calls (snd (process exampleRegExp specMigration plainBackend ''label_values(a, b, c)'' exampleRange emptyWorld))
       = [MetadataRequest ''/api/v1/label/c/values'' ((''match[]'', Some ''a, b'') # timeParams exampleRange)]"
proof -
  have f: "labelNamesFail specMigration (''label_values('' @ ''a, b'' @ '', '' @ ''c'' @ '')'')"
    using spec_fail_abc by simp
  have ne: "''a, b'' \<noteq> []" by simp
  note t = multi_argument_label_values [OF ident_examples(3) ne singleLine_examples(2) f,
            of exampleRegExp plainBackend exampleRange emptyWorld]
  have a: "match ''label_values(a, b, c)'' labelValuesRegex
             = Some [Some ''label_values(a, b, c)'', Some ''a, b'', Some ''c'']"
    using t [THEN conjunct1] by simp
  have b: "process exampleRegExp specMigration plainBackend ''label_values(a, b, c)'' exampleRange
             = labelValuesQuery plainBackend exampleRange (Some ''c'') (Some ''a, b'')"
    using t [THEN conjunct2, THEN conjunct1] by simp
  have c: "calls (snd (process exampleRegExp specMigration plainBackend ''label_values(a, b, c)'' exampleRange emptyWorld))
             = [MetadataRequest ''/api/v1/label/c/values'' ((''match[]'', Some ''a, b'') # timeParams exampleRange)]"
    using t [THEN conjunct2, THEN conjunct2] by (simp add: plainBackend_def emptyWorld_def)
  show ?thesis using a b c by blast
qed

text \<open>
  Claim C10 as stated, for every argument list with commas, fails on one that spans two
  lines: the pattern does not match and the query is sent whole to \<open>/api/v1/series\<close>.
\<close>

theorem multiline_args_counterexample:
  "brokenArgs = ''label_values('' @ (''a,'' @ [CHR 0x0A] @ ''b'') @ '', '' @ ''c'' @ '')''
   \<and> match brokenArgs labelValuesRegex = None
   \<and> calls (snd (process exampleRegExp specMigration plainBackend brokenArgs exampleRange emptyWorld))
       = [MetadataRequest ''/api/v1/series'' ((''match[]'', Some brokenArgs) # timeParams exampleRange)]"
proof -
  have p: "process exampleRegExp specMigration plainBackend brokenArgs exampleRange
       = metricNameAndLabelsQuery plainBackend exampleRange brokenArgs"
    unfolding process_freeform [OF broken_args_matches] by (simp add: brokenArgs_def)
  show ?thesis
    unfolding p metricNameAndLabelsQuery_calls using broken_args_matches(3)
    by (simp add: brokenArgs_def emptyWorld_def)
qed

end
